theory Spec2Isabelle
  imports Main "HOL-Library.Word"
begin

unbundle bit_operations_syntax

section \<open>Unit engine header: enums, flag words and inline predicates\<close>

subsection \<open>High-level unit states\<close>

text \<open>
  Modelled from the spec: the enum \<^verbatim>\<open>UnitActiveState\<close> is declared in a header that is
  not part of the sources; its seven values are the high-level states listed in section 4.4
  of the specification.
\<close>

datatype UnitActiveState =
    UNIT_ACTIVE
  | UNIT_RELOADING
  | UNIT_INACTIVE
  | UNIT_FAILED
  | UNIT_ACTIVATING
  | UNIT_DEACTIVATING
  | UNIT_MAINTENANCE

text \<open>
  The macro \<^verbatim>\<open>IN_SET(x, ...)\<close> compares its first argument with each of the others.
\<close>

definition IN_SET :: "'a \<Rightarrow> 'a list \<Rightarrow> bool" where
  "IN_SET x ys \<longleftrightarrow> x \<in> set ys"

definition UNIT_IS_ACTIVE_OR_RELOADING :: "UnitActiveState \<Rightarrow> bool" where
  "UNIT_IS_ACTIVE_OR_RELOADING t = IN_SET t [UNIT_ACTIVE, UNIT_RELOADING]"

definition UNIT_IS_ACTIVE_OR_ACTIVATING :: "UnitActiveState \<Rightarrow> bool" where
  "UNIT_IS_ACTIVE_OR_ACTIVATING t = IN_SET t [UNIT_ACTIVE, UNIT_ACTIVATING, UNIT_RELOADING]"

definition UNIT_IS_INACTIVE_OR_DEACTIVATING :: "UnitActiveState \<Rightarrow> bool" where
  "UNIT_IS_INACTIVE_OR_DEACTIVATING t = IN_SET t [UNIT_INACTIVE, UNIT_FAILED, UNIT_DEACTIVATING]"

definition UNIT_IS_INACTIVE_OR_FAILED :: "UnitActiveState \<Rightarrow> bool" where
  "UNIT_IS_INACTIVE_OR_FAILED t = IN_SET t [UNIT_INACTIVE, UNIT_FAILED]"

subsection \<open>Flags used when writing drop-in or transient unit files\<close>

text \<open>
  \<^verbatim>\<open>UnitWriteFlags\<close> is an enum used as a bit set; it is modelled as a 32-bit word.
\<close>

type_synonym UnitWriteFlags = "32 word"

definition UNIT_RUNTIME :: UnitWriteFlags where
  "UNIT_RUNTIME = push_bit 0 1"

definition UNIT_PERSISTENT :: UnitWriteFlags where
  "UNIT_PERSISTENT = push_bit 1 1"

definition UNIT_PRIVATE :: UnitWriteFlags where
  "UNIT_PRIVATE = push_bit 2 1"

definition UNIT_ESCAPE_SPECIFIERS :: UnitWriteFlags where
  "UNIT_ESCAPE_SPECIFIERS = push_bit 3 1"

definition UNIT_ESCAPE_C :: UnitWriteFlags where
  "UNIT_ESCAPE_C = push_bit 4 1"

definition UNIT_WRITE_FLAGS_NOOP :: "UnitWriteFlags \<Rightarrow> bool" where
  "UNIT_WRITE_FLAGS_NOOP flags = ((flags AND (UNIT_RUNTIME OR UNIT_PERSISTENT)) = 0)"

subsection \<open>Dependency provenance masks\<close>

text \<open>
  \<^verbatim>\<open>UnitDependencyMask\<close> records why a dependency exists. Its values are stored in
  16-bit fields, so the enumerators are modelled as 16-bit words.
\<close>

type_synonym UnitDependencyMask = "16 word"

definition UNIT_DEPENDENCY_FILE :: UnitDependencyMask where
  "UNIT_DEPENDENCY_FILE = push_bit 0 1"

definition UNIT_DEPENDENCY_IMPLICIT :: UnitDependencyMask where
  "UNIT_DEPENDENCY_IMPLICIT = push_bit 1 1"

definition UNIT_DEPENDENCY_DEFAULT :: UnitDependencyMask where
  "UNIT_DEPENDENCY_DEFAULT = push_bit 2 1"

definition UNIT_DEPENDENCY_UDEV :: UnitDependencyMask where
  "UNIT_DEPENDENCY_UDEV = push_bit 3 1"

definition UNIT_DEPENDENCY_PATH :: UnitDependencyMask where
  "UNIT_DEPENDENCY_PATH = push_bit 4 1"

definition UNIT_DEPENDENCY_MOUNTINFO_IMPLICIT :: UnitDependencyMask where
  "UNIT_DEPENDENCY_MOUNTINFO_IMPLICIT = push_bit 5 1"

definition UNIT_DEPENDENCY_MOUNTINFO_DEFAULT :: UnitDependencyMask where
  "UNIT_DEPENDENCY_MOUNTINFO_DEFAULT = push_bit 6 1"

definition UNIT_DEPENDENCY_PROC_SWAP :: UnitDependencyMask where
  "UNIT_DEPENDENCY_PROC_SWAP = push_bit 7 1"

definition UNIT_DEPENDENCY_MASK_FULL :: UnitDependencyMask where
  "UNIT_DEPENDENCY_MASK_FULL = push_bit 8 1 - 1"

text \<open>
  The value type of the \<^verbatim>\<open>dependencies[]\<close> hashmaps: a union of a \<^verbatim>\<open>void *\<close> with a
  packed struct of two 16-bit bit-fields. The record is the struct view.
\<close>

record UnitDependencyInfo =
  origin_mask :: UnitDependencyMask
  destination_mask :: UnitDependencyMask

text \<open>
  The \<^verbatim>\<open>data\<close> view of the union, which is what the hashmap stores, is a pointer: a word
  of the width \<open>'p\<close> of pointers, 64 bits or 32 bits on the platforms the manager runs on.
  The struct overlays its low 32 bits: \<^verbatim>\<open>origin_mask\<close> is bits 0 to 15 and
  \<^verbatim>\<open>destination_mask\<close> bits 16 to 31, the order in which the bit-fields are declared.
\<close>

type_synonym void_ptr = "64 word"

type_synonym void_ptr32 = "32 word"

text \<open>Reading the two bit-fields of a union whose \<^verbatim>\<open>data\<close> is \<open>p\<close>.\<close>

definition UnitDependencyInfo_of_data :: "'p::len word \<Rightarrow> UnitDependencyInfo" where
  "UnitDependencyInfo_of_data p =
     \<lparr>origin_mask = ucast p, destination_mask = ucast (drop_bit 16 p)\<rparr>"

text \<open>
  Writing the two bit-fields of a union whose \<^verbatim>\<open>data\<close> was \<open>p\<close>: the bits of the pointer
  that the struct does not cover keep what they held.
\<close>

definition UnitDependencyInfo_store :: "'p::len word \<Rightarrow> UnitDependencyInfo \<Rightarrow> 'p word" where
  "UnitDependencyInfo_store p i =
     (p AND NOT (mask 32)) OR ucast (origin_mask i) OR push_bit 16 (ucast (destination_mask i))"

section \<open>The unit object and the manager\<close>

text \<open>A \<^verbatim>\<open>Unit *\<close> is modelled by the identity of the unit it points to.\<close>

type_synonym unit_ptr = nat

datatype CollectMode =
    COLLECT_INACTIVE
  | COLLECT_INACTIVE_OR_FAILED

text \<open>
  Modelled from the spec: the enum \<^verbatim>\<open>UnitLoadState\<close> is declared in a header that is not
  part of the sources; its values are the load states of section 3 of the specification.
\<close>

datatype UnitLoadState =
    UNIT_STUB
  | UNIT_LOADED
  | UNIT_NOT_FOUND
  | UNIT_BAD_SETTING
  | UNIT_ERROR
  | UNIT_MERGED
  | UNIT_MASKED

text \<open>
  Modelled from the spec: the enum \<^verbatim>\<open>UnitDependency\<close> is declared in a header that is
  not part of the sources; its values are the dependency kinds of section 3 of the
  specification, in the order in which they are listed there.
\<close>

datatype UnitDependency =
    UNIT_REQUIRES
  | UNIT_REQUIRED_BY
  | UNIT_REQUISITE
  | UNIT_REQUISITE_OF
  | UNIT_WANTS
  | UNIT_WANTED_BY
  | UNIT_BINDS_TO
  | UNIT_BOUND_BY
  | UNIT_PART_OF
  | UNIT_CONSISTS_OF
  | UNIT_UPHOLDS
  | UNIT_UPHELD_BY
  | UNIT_CONFLICTS
  | UNIT_CONFLICTED_BY
  | UNIT_BEFORE
  | UNIT_AFTER
  | UNIT_ON_FAILURE
  | UNIT_ON_FAILURE_OF
  | UNIT_TRIGGERS
  | UNIT_TRIGGERED_BY
  | UNIT_PROPAGATES_RELOAD_TO
  | UNIT_RELOAD_PROPAGATED_FROM
  | UNIT_JOINS_NAMESPACE_OF
  | UNIT_REFERENCES
  | UNIT_REFERENCED_BY

text \<open>
  Modelled from the spec: the table of inverse dependency kinds is not part of the sources.
  Section 3 of the specification lists the kinds in pairs, each kind with its inverse;
  \<^verbatim>\<open>JoinsNamespaceOf\<close> is listed alone and is its own inverse.
\<close>

fun unit_dependency_inverse :: "UnitDependency \<Rightarrow> UnitDependency" where
  "unit_dependency_inverse UNIT_REQUIRES = UNIT_REQUIRED_BY"
| "unit_dependency_inverse UNIT_REQUIRED_BY = UNIT_REQUIRES"
| "unit_dependency_inverse UNIT_REQUISITE = UNIT_REQUISITE_OF"
| "unit_dependency_inverse UNIT_REQUISITE_OF = UNIT_REQUISITE"
| "unit_dependency_inverse UNIT_WANTS = UNIT_WANTED_BY"
| "unit_dependency_inverse UNIT_WANTED_BY = UNIT_WANTS"
| "unit_dependency_inverse UNIT_BINDS_TO = UNIT_BOUND_BY"
| "unit_dependency_inverse UNIT_BOUND_BY = UNIT_BINDS_TO"
| "unit_dependency_inverse UNIT_PART_OF = UNIT_CONSISTS_OF"
| "unit_dependency_inverse UNIT_CONSISTS_OF = UNIT_PART_OF"
| "unit_dependency_inverse UNIT_UPHOLDS = UNIT_UPHELD_BY"
| "unit_dependency_inverse UNIT_UPHELD_BY = UNIT_UPHOLDS"
| "unit_dependency_inverse UNIT_CONFLICTS = UNIT_CONFLICTED_BY"
| "unit_dependency_inverse UNIT_CONFLICTED_BY = UNIT_CONFLICTS"
| "unit_dependency_inverse UNIT_BEFORE = UNIT_AFTER"
| "unit_dependency_inverse UNIT_AFTER = UNIT_BEFORE"
| "unit_dependency_inverse UNIT_ON_FAILURE = UNIT_ON_FAILURE_OF"
| "unit_dependency_inverse UNIT_ON_FAILURE_OF = UNIT_ON_FAILURE"
| "unit_dependency_inverse UNIT_TRIGGERS = UNIT_TRIGGERED_BY"
| "unit_dependency_inverse UNIT_TRIGGERED_BY = UNIT_TRIGGERS"
| "unit_dependency_inverse UNIT_PROPAGATES_RELOAD_TO = UNIT_RELOAD_PROPAGATED_FROM"
| "unit_dependency_inverse UNIT_RELOAD_PROPAGATED_FROM = UNIT_PROPAGATES_RELOAD_TO"
| "unit_dependency_inverse UNIT_JOINS_NAMESPACE_OF = UNIT_JOINS_NAMESPACE_OF"
| "unit_dependency_inverse UNIT_REFERENCES = UNIT_REFERENCED_BY"
| "unit_dependency_inverse UNIT_REFERENCED_BY = UNIT_REFERENCES"

text \<open>A reference to a unit, kept on the list \<^verbatim>\<open>refs_by_target\<close> of its target.\<close>

record UnitRef =
  source :: unit_ptr
  target :: unit_ptr

text \<open>
  The fields of \<^verbatim>\<open>struct Unit\<close> that the engine operations below read or write. A
  hashmap is a partial function from its keys, a \<^verbatim>\<open>Set *\<close> a set, a possibly null
  pointer an option. The field \<^verbatim>\<open>id\<close> is called \<open>unit_id\<close> here.
\<close>

record Unit =
  load_state :: UnitLoadState
  merged_into :: "unit_ptr option"
  unit_id :: string
  names :: "string set"
  dependencies :: "UnitDependency \<Rightarrow> (unit_ptr \<rightharpoonup> UnitDependencyInfo)"
  job :: "nat option"
  refs_by_target :: "UnitRef list"
  pids :: "nat set"
  collect_mode :: CollectMode
  perpetual :: bool
  in_load_queue :: bool
  in_dbus_queue :: bool
  in_cleanup_queue :: bool
  in_gc_queue :: bool
  in_cgroup_realize_queue :: bool
  in_cgroup_empty_queue :: bool
  in_cgroup_oom_queue :: bool
  in_target_deps_queue :: bool
  in_stop_when_unneeded_queue :: bool

text \<open>The two callbacks of \<^verbatim>\<open>UnitVTable\<close> that garbage collection consults.\<close>

record UnitVTable =
  active_state :: "Unit \<Rightarrow> UnitActiveState"
  may_gc :: "(Unit \<Rightarrow> bool) option"

text \<open>The nine queues a unit can be linked on, one per \<^verbatim>\<open>LIST_FIELDS\<close> of the unit.\<close>

datatype UnitQueue =
    LOAD_QUEUE
  | DBUS_QUEUE
  | CLEANUP_QUEUE
  | GC_QUEUE
  | CGROUP_REALIZE_QUEUE
  | CGROUP_EMPTY_QUEUE
  | CGROUP_OOM_QUEUE
  | TARGET_DEPS_QUEUE
  | STOP_WHEN_UNNEEDED_QUEUE

fun in_queue :: "UnitQueue \<Rightarrow> Unit \<Rightarrow> bool" where
  "in_queue LOAD_QUEUE u = in_load_queue u"
| "in_queue DBUS_QUEUE u = in_dbus_queue u"
| "in_queue CLEANUP_QUEUE u = in_cleanup_queue u"
| "in_queue GC_QUEUE u = in_gc_queue u"
| "in_queue CGROUP_REALIZE_QUEUE u = in_cgroup_realize_queue u"
| "in_queue CGROUP_EMPTY_QUEUE u = in_cgroup_empty_queue u"
| "in_queue CGROUP_OOM_QUEUE u = in_cgroup_oom_queue u"
| "in_queue TARGET_DEPS_QUEUE u = in_target_deps_queue u"
| "in_queue STOP_WHEN_UNNEEDED_QUEUE u = in_stop_when_unneeded_queue u"

fun set_in_queue :: "UnitQueue \<Rightarrow> bool \<Rightarrow> Unit \<Rightarrow> Unit" where
  "set_in_queue LOAD_QUEUE b u = u\<lparr>in_load_queue := b\<rparr>"
| "set_in_queue DBUS_QUEUE b u = u\<lparr>in_dbus_queue := b\<rparr>"
| "set_in_queue CLEANUP_QUEUE b u = u\<lparr>in_cleanup_queue := b\<rparr>"
| "set_in_queue GC_QUEUE b u = u\<lparr>in_gc_queue := b\<rparr>"
| "set_in_queue CGROUP_REALIZE_QUEUE b u = u\<lparr>in_cgroup_realize_queue := b\<rparr>"
| "set_in_queue CGROUP_EMPTY_QUEUE b u = u\<lparr>in_cgroup_empty_queue := b\<rparr>"
| "set_in_queue CGROUP_OOM_QUEUE b u = u\<lparr>in_cgroup_oom_queue := b\<rparr>"
| "set_in_queue TARGET_DEPS_QUEUE b u = u\<lparr>in_target_deps_queue := b\<rparr>"
| "set_in_queue STOP_WHEN_UNNEEDED_QUEUE b u = u\<lparr>in_stop_when_unneeded_queue := b\<rparr>"

text \<open>
  Modelled from the spec: \<^verbatim>\<open>struct Manager\<close> is not part of the sources. The model keeps
  what the specification says the manager owns and the operations below need: the unit
  objects, by pointer, and for every queue the list of the units linked on it, head first.
\<close>

record Manager =
  units :: "unit_ptr \<Rightarrow> Unit"
  queues :: "UnitQueue \<Rightarrow> unit_ptr list"

text \<open>
  Modelled from the spec: \<^verbatim>\<open>unit_new\<close> is only declared in the sources. A new unit is a
  stub, not merged, with no name, dependency, job, reference or watched PID, and on no
  queue.
\<close>

definition unit_new :: Unit where
  "unit_new =
     \<lparr>load_state = UNIT_STUB, merged_into = None, unit_id = [], names = {},
      dependencies = (\<lambda>d. Map.empty),
      job = None, refs_by_target = [], pids = {}, collect_mode = COLLECT_INACTIVE,
      perpetual = False, in_load_queue = False, in_dbus_queue = False,
      in_cleanup_queue = False, in_gc_queue = False, in_cgroup_realize_queue = False,
      in_cgroup_empty_queue = False, in_cgroup_oom_queue = False,
      in_target_deps_queue = False, in_stop_when_unneeded_queue = False\<rparr>"

definition manager_new :: Manager where
  "manager_new = \<lparr>units = (\<lambda>u. unit_new), queues = (\<lambda>q. [])\<rparr>"

section \<open>Engine operations\<close>

subsection \<open>Adding dependencies\<close>

text \<open>
  Modelled from the spec: \<^verbatim>\<open>unit_add_dependency\<close> is only declared in the sources.
  Section 4.2 of the specification: the operation is idempotent, OR-merges \<^verbatim>\<open>mask\<close> into
  both sides of the edge, and optionally installs a \<^verbatim>\<open>UnitRef\<close>; section 3: adding an
  edge of kind \<open>k\<close> from \<open>A\<close> to \<open>B\<close> adds the edge of the inverse kind from \<open>B\<close> to
  \<open>A\<close>, and each edge carries one mask for the origin side and one for the destination
  side. The unit that asks for the dependency is the origin: its own entry gets the mask
  on the origin side, the entry of the peer gets it on the destination side.
\<close>

definition unit_dependency_info_or ::
  "UnitDependencyMask \<Rightarrow> UnitDependencyMask \<Rightarrow> UnitDependencyInfo option
     \<Rightarrow> UnitDependencyInfo" where
  "unit_dependency_info_or origin_m destination_m e =
     (case e of
        None \<Rightarrow> \<lparr>origin_mask = origin_m, destination_mask = destination_m\<rparr>
      | Some i \<Rightarrow> \<lparr>origin_mask = origin_mask i OR origin_m,
                   destination_mask = destination_mask i OR destination_m\<rparr>)"

definition hashmap_or_merge ::
  "(unit_ptr \<rightharpoonup> UnitDependencyInfo) \<Rightarrow> unit_ptr \<Rightarrow> UnitDependencyMask \<Rightarrow> UnitDependencyMask
     \<Rightarrow> (unit_ptr \<rightharpoonup> UnitDependencyInfo)" where
  "hashmap_or_merge h other origin_m destination_m =
     h(other \<mapsto> unit_dependency_info_or origin_m destination_m (h other))"

definition unit_put_dependency ::
  "Manager \<Rightarrow> unit_ptr \<Rightarrow> UnitDependency \<Rightarrow> unit_ptr \<Rightarrow> UnitDependencyMask \<Rightarrow> UnitDependencyMask
     \<Rightarrow> Manager" where
  "unit_put_dependency m u d other origin_m destination_m =
     m\<lparr>units := (units m)(u := (units m u)
        \<lparr>dependencies := (dependencies (units m u))
           (d := hashmap_or_merge (dependencies (units m u) d) other origin_m destination_m)\<rparr>)\<rparr>"

definition unit_ref_set :: "Manager \<Rightarrow> unit_ptr \<Rightarrow> unit_ptr \<Rightarrow> Manager" where
  "unit_ref_set m src tgt =
     m\<lparr>units := (units m)(tgt := (units m tgt)
        \<lparr>refs_by_target := List.insert \<lparr>source = src, target = tgt\<rparr>
                               (refs_by_target (units m tgt))\<rparr>)\<rparr>"

definition unit_add_dependency ::
  "Manager \<Rightarrow> unit_ptr \<Rightarrow> UnitDependency \<Rightarrow> unit_ptr \<Rightarrow> bool \<Rightarrow> UnitDependencyMask \<Rightarrow> Manager" where
  "unit_add_dependency m u d other add_reference msk =
     (let m1 = unit_put_dependency m u d other msk 0;
          m2 = unit_put_dependency m1 other (unit_dependency_inverse d) u 0 msk
      in if add_reference then unit_ref_set m2 u other else m2)"

text \<open>One call of \<^verbatim>\<open>unit_add_dependency\<close>, with its arguments, and a sequence of calls.\<close>

datatype add_dependency_call =
  AddDependency unit_ptr UnitDependency unit_ptr bool UnitDependencyMask

fun run_add_dependency :: "Manager \<Rightarrow> add_dependency_call \<Rightarrow> Manager" where
  "run_add_dependency m (AddDependency u d other add_reference msk) =
     unit_add_dependency m u d other add_reference msk"

definition run_add_dependencies :: "Manager \<Rightarrow> add_dependency_call list \<Rightarrow> Manager" where
  "run_add_dependencies m cs = foldl run_add_dependency m cs"

text \<open>The entry of unit \<open>B\<close> in the hashmap \<^verbatim>\<open>dependencies[k]\<close> of unit \<open>A\<close>.\<close>

definition dependency_info ::
  "Manager \<Rightarrow> unit_ptr \<Rightarrow> UnitDependency \<Rightarrow> unit_ptr \<Rightarrow> UnitDependencyInfo option" where
  "dependency_info m A k B = dependencies (units m A) k B"

text \<open>The same edge seen from its other end: the two masks change places.\<close>

definition mirror_info :: "UnitDependencyInfo \<Rightarrow> UnitDependencyInfo" where
  "mirror_info i = \<lparr>origin_mask = destination_mask i, destination_mask = origin_mask i\<rparr>"

subsection \<open>Queues\<close>

text \<open>
  Modelled from the spec: the functions that put a unit on a queue are only declared in
  the sources, and those that take it off are not part of them. Sections 3 and 9 of the
  specification: a queue is an intrusive list plus a boolean flag on the unit, and
  enqueue and dequeue update both together. A unit that is already on the queue is not
  linked a second time, and one that is not on it is not unlinked.
\<close>

definition unit_add_to_queue :: "UnitQueue \<Rightarrow> unit_ptr \<Rightarrow> Manager \<Rightarrow> Manager" where
  "unit_add_to_queue q u m =
     (if in_queue q (units m u) then m
      else m\<lparr>queues := (queues m)(q := queues m q @ [u]),
              units := (units m)(u := set_in_queue q True (units m u))\<rparr>)"

definition unit_remove_from_queue :: "UnitQueue \<Rightarrow> unit_ptr \<Rightarrow> Manager \<Rightarrow> Manager" where
  "unit_remove_from_queue q u m =
     (if \<not> in_queue q (units m u) then m
      else m\<lparr>queues := (queues m)(q := remove1 u (queues m q)),
              units := (units m)(u := set_in_queue q False (units m u))\<rparr>)"

definition unit_add_to_load_queue :: "unit_ptr \<Rightarrow> Manager \<Rightarrow> Manager" where
  "unit_add_to_load_queue = unit_add_to_queue LOAD_QUEUE"

definition unit_add_to_dbus_queue :: "unit_ptr \<Rightarrow> Manager \<Rightarrow> Manager" where
  "unit_add_to_dbus_queue = unit_add_to_queue DBUS_QUEUE"

definition unit_add_to_cleanup_queue :: "unit_ptr \<Rightarrow> Manager \<Rightarrow> Manager" where
  "unit_add_to_cleanup_queue = unit_add_to_queue CLEANUP_QUEUE"


definition unit_add_to_target_deps_queue :: "unit_ptr \<Rightarrow> Manager \<Rightarrow> Manager" where
  "unit_add_to_target_deps_queue = unit_add_to_queue TARGET_DEPS_QUEUE"

definition unit_submit_to_stop_when_unneeded_queue :: "unit_ptr \<Rightarrow> Manager \<Rightarrow> Manager" where
  "unit_submit_to_stop_when_unneeded_queue = unit_add_to_queue STOP_WHEN_UNNEEDED_QUEUE"

datatype queue_op =
    Enqueue UnitQueue unit_ptr
  | Dequeue UnitQueue unit_ptr

fun run_queue_op :: "Manager \<Rightarrow> queue_op \<Rightarrow> Manager" where
  "run_queue_op m (Enqueue q u) = unit_add_to_queue q u m"
| "run_queue_op m (Dequeue q u) = unit_remove_from_queue q u m"

definition run_queue_ops :: "Manager \<Rightarrow> queue_op list \<Rightarrow> Manager" where
  "run_queue_ops m ops = foldl run_queue_op m ops"

text \<open>Whether unit \<open>u\<close> is linked on the list of queue \<open>q\<close>.\<close>

definition linked_on_queue :: "Manager \<Rightarrow> UnitQueue \<Rightarrow> unit_ptr \<Rightarrow> bool" where
  "linked_on_queue m q u \<longleftrightarrow> u \<in> set (queues m q)"

subsection \<open>Garbage collection\<close>

text \<open>
  Modelled from the spec: \<^verbatim>\<open>unit_may_gc\<close> is only declared in the sources. Section 4.6
  of the specification: a unit may be collected when it has no job, is not active, is not
  referenced by any \<^verbatim>\<open>UnitRef\<close>, is not perpetual, has no watched PIDs, and the callback
  \<^verbatim>\<open>may_gc\<close> of its type agrees; \<^verbatim>\<open>collect_mode\<close> refines the state test: \<^verbatim>\<open>inactive\<close>
  collects only from the inactive state, \<^verbatim>\<open>inactive_or_failed\<close> also from the failed
  state. The state is the one the callback \<^verbatim>\<open>active_state\<close> of the type reports.
\<close>

definition unit_may_gc :: "UnitVTable \<Rightarrow> Unit \<Rightarrow> bool" where
  "unit_may_gc vt u =
     (let state = active_state vt u in
      if job u \<noteq> None then False
      else if UNIT_IS_ACTIVE_OR_ACTIVATING state then False
      else if refs_by_target u \<noteq> [] then False
      else if perpetual u then False
      else if pids u \<noteq> {} then False
      else if (case collect_mode u of
                 COLLECT_INACTIVE \<Rightarrow> state \<noteq> UNIT_INACTIVE
               | COLLECT_INACTIVE_OR_FAILED \<Rightarrow> \<not> IN_SET state [UNIT_INACTIVE, UNIT_FAILED])
           then False
      else (case may_gc vt of None \<Rightarrow> True | Some f \<Rightarrow> f u))"

subsection \<open>Merge chains\<close>











section \<open>Invariants\<close>

text \<open>
  Every edge is present at both of its ends, under the kind and its inverse, with the two
  masks in mirrored places.
\<close>

definition edges_mirrored :: "Manager \<Rightarrow> bool" where
  "edges_mirrored m \<longleftrightarrow>
     (\<forall>A k B. dependency_info m B (unit_dependency_inverse k) A =
        map_option mirror_info (dependency_info m A k B))"

text \<open>
  No unit is linked twice on a queue, and a unit is linked on a queue exactly when its
  flag for that queue is set.
\<close>

definition queues_coherent :: "Manager \<Rightarrow> bool" where
  "queues_coherent m \<longleftrightarrow>
     (\<forall>q. distinct (queues m q) \<and> (\<forall>u. (u \<in> set (queues m q)) = in_queue q (units m u)))"





text \<open>A unit type whose units report the failed state and whose callback allows collection.\<close>

definition failed_vtable :: UnitVTable where
  "failed_vtable = \<lparr>active_state = (\<lambda>u. UNIT_FAILED), may_gc = Some (\<lambda>u. True)\<rparr>"

section \<open>Properties of the inline predicates and flag words\<close>

subsection \<open>High-level state classification\<close>

text \<open>
  Claim C10. For every high-level state \<open>t\<close>: \<^verbatim>\<open>UNIT_IS_ACTIVE_OR_ACTIVATING\<close> holds
  exactly for active, activating and reloading; \<^verbatim>\<open>UNIT_IS_INACTIVE_OR_DEACTIVATING\<close> holds
  exactly for inactive, failed and deactivating; no state satisfies both;
  \<^verbatim>\<open>UNIT_IS_INACTIVE_OR_FAILED\<close> implies \<^verbatim>\<open>UNIT_IS_INACTIVE_OR_DEACTIVATING\<close>, and
  \<^verbatim>\<open>UNIT_IS_ACTIVE_OR_RELOADING\<close> implies \<^verbatim>\<open>UNIT_IS_ACTIVE_OR_ACTIVATING\<close>.
\<close>

theorem unit_state_classification:
  "(UNIT_IS_ACTIVE_OR_ACTIVATING t \<longleftrightarrow>
      t = UNIT_ACTIVE \<or> t = UNIT_ACTIVATING \<or> t = UNIT_RELOADING)
   \<and> (UNIT_IS_INACTIVE_OR_DEACTIVATING t \<longleftrightarrow>
      t = UNIT_INACTIVE \<or> t = UNIT_FAILED \<or> t = UNIT_DEACTIVATING)
   \<and> \<not> (UNIT_IS_ACTIVE_OR_ACTIVATING t \<and> UNIT_IS_INACTIVE_OR_DEACTIVATING t)
   \<and> (UNIT_IS_INACTIVE_OR_FAILED t \<longrightarrow> UNIT_IS_INACTIVE_OR_DEACTIVATING t)
   \<and> (UNIT_IS_ACTIVE_OR_RELOADING t \<longrightarrow> UNIT_IS_ACTIVE_OR_ACTIVATING t)"
  by (cases t)
    (simp_all add: UNIT_IS_ACTIVE_OR_ACTIVATING_def UNIT_IS_INACTIVE_OR_DEACTIVATING_def
       UNIT_IS_INACTIVE_OR_FAILED_def UNIT_IS_ACTIVE_OR_RELOADING_def IN_SET_def)

theorem unit_state_classification_witness:
  "UNIT_IS_INACTIVE_OR_FAILED UNIT_FAILED \<and> UNIT_IS_INACTIVE_OR_DEACTIVATING UNIT_FAILED
   \<and> UNIT_IS_ACTIVE_OR_RELOADING UNIT_RELOADING \<and> UNIT_IS_ACTIVE_OR_ACTIVATING UNIT_RELOADING"
proof -
  have failed: "UNIT_IS_INACTIVE_OR_FAILED UNIT_FAILED"
    by (simp add: UNIT_IS_INACTIVE_OR_FAILED_def IN_SET_def)
  have reloading: "UNIT_IS_ACTIVE_OR_RELOADING UNIT_RELOADING"
    by (simp add: UNIT_IS_ACTIVE_OR_RELOADING_def IN_SET_def)
  show ?thesis
    using failed reloading unit_state_classification [of UNIT_FAILED]
      unit_state_classification [of UNIT_RELOADING]
    by simp
qed

subsection \<open>Check-only write flags\<close>

lemma write_flags_noop_masks:
  "UNIT_WRITE_FLAGS_NOOP f \<longleftrightarrow> f AND UNIT_RUNTIME = 0 \<and> f AND UNIT_PERSISTENT = 0"
  unfolding UNIT_WRITE_FLAGS_NOOP_def by (simp add: bit.conj_disj_distrib or_eq_0_iff)

lemma write_flags_noop_bits:
  "UNIT_WRITE_FLAGS_NOOP f \<longleftrightarrow> \<not> bit f 0 \<and> \<not> bit f 1"
  using and_exp_eq_0_iff_not_bit [of f 0] and_exp_eq_0_iff_not_bit [of f 1]
  by (simp add: write_flags_noop_masks UNIT_RUNTIME_def UNIT_PERSISTENT_def)

lemma write_flags_noop_xor:
  "\<not> bit g 0 \<Longrightarrow> \<not> bit g 1 \<Longrightarrow> UNIT_WRITE_FLAGS_NOOP (f XOR g) = UNIT_WRITE_FLAGS_NOOP f"
  by (simp add: write_flags_noop_bits bit_xor_iff)

text \<open>
  Claim C9. For every flag word \<open>f\<close>, \<^verbatim>\<open>UNIT_WRITE_FLAGS_NOOP(f)\<close> is true if and only if
  neither the \<^verbatim>\<open>UNIT_RUNTIME\<close> bit nor the \<^verbatim>\<open>UNIT_PERSISTENT\<close> bit is set in \<open>f\<close>;
  flipping the \<^verbatim>\<open>UNIT_PRIVATE\<close>, \<^verbatim>\<open>UNIT_ESCAPE_SPECIFIERS\<close> or \<^verbatim>\<open>UNIT_ESCAPE_C\<close> bit of \<open>f\<close>
  does not change the result.
\<close>

theorem unit_write_flags_noop_iff:
  "(UNIT_WRITE_FLAGS_NOOP f \<longleftrightarrow> f AND UNIT_RUNTIME = 0 \<and> f AND UNIT_PERSISTENT = 0)
   \<and> UNIT_WRITE_FLAGS_NOOP (f XOR UNIT_PRIVATE) = UNIT_WRITE_FLAGS_NOOP f
   \<and> UNIT_WRITE_FLAGS_NOOP (f XOR UNIT_ESCAPE_SPECIFIERS) = UNIT_WRITE_FLAGS_NOOP f
   \<and> UNIT_WRITE_FLAGS_NOOP (f XOR UNIT_ESCAPE_C) = UNIT_WRITE_FLAGS_NOOP f"
  using write_flags_noop_masks [of f]
  by (simp add: write_flags_noop_xor UNIT_PRIVATE_def UNIT_ESCAPE_SPECIFIERS_def
      UNIT_ESCAPE_C_def bit_push_bit_iff bit_1_iff)

subsection \<open>Representation of edge provenance\<close>

lemma dependency_reasons_bits:
  "[UNIT_DEPENDENCY_FILE, UNIT_DEPENDENCY_IMPLICIT, UNIT_DEPENDENCY_DEFAULT,
    UNIT_DEPENDENCY_UDEV, UNIT_DEPENDENCY_PATH, UNIT_DEPENDENCY_MOUNTINFO_IMPLICIT,
    UNIT_DEPENDENCY_MOUNTINFO_DEFAULT, UNIT_DEPENDENCY_PROC_SWAP]
   = map (\<lambda>n. push_bit n 1) [0..<8]"
  by (simp add: upt_rec UNIT_DEPENDENCY_FILE_def UNIT_DEPENDENCY_IMPLICIT_def
      UNIT_DEPENDENCY_DEFAULT_def UNIT_DEPENDENCY_UDEV_def UNIT_DEPENDENCY_PATH_def
      UNIT_DEPENDENCY_MOUNTINFO_IMPLICIT_def UNIT_DEPENDENCY_MOUNTINFO_DEFAULT_def
      UNIT_DEPENDENCY_PROC_SWAP_def)

lemma dependency_reasons_distinct:
  "distinct [UNIT_DEPENDENCY_FILE, UNIT_DEPENDENCY_IMPLICIT, UNIT_DEPENDENCY_DEFAULT,
    UNIT_DEPENDENCY_UDEV, UNIT_DEPENDENCY_PATH, UNIT_DEPENDENCY_MOUNTINFO_IMPLICIT,
    UNIT_DEPENDENCY_MOUNTINFO_DEFAULT, UNIT_DEPENDENCY_PROC_SWAP]"
  by (simp add: UNIT_DEPENDENCY_FILE_def UNIT_DEPENDENCY_IMPLICIT_def
      UNIT_DEPENDENCY_DEFAULT_def UNIT_DEPENDENCY_UDEV_def UNIT_DEPENDENCY_PATH_def
      UNIT_DEPENDENCY_MOUNTINFO_IMPLICIT_def UNIT_DEPENDENCY_MOUNTINFO_DEFAULT_def
      UNIT_DEPENDENCY_PROC_SWAP_def)

lemma dependency_mask_full:
  "UNIT_DEPENDENCY_MASK_FULL =
     UNIT_DEPENDENCY_FILE OR UNIT_DEPENDENCY_IMPLICIT OR UNIT_DEPENDENCY_DEFAULT OR
     UNIT_DEPENDENCY_UDEV OR UNIT_DEPENDENCY_PATH OR UNIT_DEPENDENCY_MOUNTINFO_IMPLICIT OR
     UNIT_DEPENDENCY_MOUNTINFO_DEFAULT OR UNIT_DEPENDENCY_PROC_SWAP"
  by (simp add: UNIT_DEPENDENCY_MASK_FULL_def UNIT_DEPENDENCY_FILE_def
      UNIT_DEPENDENCY_IMPLICIT_def UNIT_DEPENDENCY_DEFAULT_def UNIT_DEPENDENCY_UDEV_def
      UNIT_DEPENDENCY_PATH_def UNIT_DEPENDENCY_MOUNTINFO_IMPLICIT_def
      UNIT_DEPENDENCY_MOUNTINFO_DEFAULT_def UNIT_DEPENDENCY_PROC_SWAP_def)

lemma bit_dependency_info_store:
  "bit (UnitDependencyInfo_store p i) n \<longleftrightarrow>
     n < LENGTH('p) \<and>
     (if n < 16 then bit (origin_mask i) n
      else if n < 32 then bit (destination_mask i) (n - 16)
      else bit p n)" for p :: "'p::len word"
  unfolding UnitDependencyInfo_store_def
  by (auto simp add: bit_or_iff bit_and_iff bit_not_iff bit_mask_iff bit_ucast_iff
      bit_push_bit_iff dest: bit_imp_le_length)

lemma dependency_info_store_roundtrip:
  assumes "32 \<le> LENGTH('p)"
  shows "UnitDependencyInfo_of_data (UnitDependencyInfo_store (p :: 'p::len word) i) = i"
proof -
  have low: "(ucast (UnitDependencyInfo_store p i) :: 16 word) = origin_mask i"
    using assms
    by (intro bit_eqI)
      (auto simp add: bit_ucast_iff bit_dependency_info_store dest: bit_imp_le_length)
  have high: "(ucast (drop_bit 16 (UnitDependencyInfo_store p i)) :: 16 word)
      = destination_mask i"
    using assms
    by (intro bit_eqI)
      (auto simp add: bit_ucast_iff bit_drop_bit_eq bit_dependency_info_store
        dest: bit_imp_le_length)
  show ?thesis
    unfolding UnitDependencyInfo_of_data_def low high by simp
qed

lemma dependency_info_store_keeps_rest:
  "drop_bit 32 (UnitDependencyInfo_store p i) = drop_bit 32 p"
  by (intro bit_eqI)
    (auto simp add: bit_drop_bit_eq bit_dependency_info_store dest: bit_imp_le_length)

lemma dependency_info_of_data_low_bits:
  "UnitDependencyInfo_of_data p = UnitDependencyInfo_of_data (take_bit 32 p)"
proof -
  have low: "(ucast (take_bit 32 p) :: 16 word) = ucast p"
    by (intro bit_eqI) (auto simp add: bit_ucast_iff bit_take_bit_iff dest: bit_imp_le_length)
  have high: "(ucast (drop_bit 16 (take_bit 32 p)) :: 16 word) = ucast (drop_bit 16 p)"
    by (intro bit_eqI)
      (auto simp add: bit_ucast_iff bit_drop_bit_eq bit_take_bit_iff dest: bit_imp_le_length)
  show ?thesis
    unfolding UnitDependencyInfo_of_data_def low high ..
qed

lemma dependency_info_of_data_inj_32:
  "UnitDependencyInfo_of_data q = UnitDependencyInfo_of_data q' \<longleftrightarrow> q = q'"
  for q q' :: void_ptr32
proof
  assume eq: "UnitDependencyInfo_of_data q = UnitDependencyInfo_of_data q'"
  then have low: "(ucast q :: 16 word) = ucast q'"
    and high: "(ucast (drop_bit 16 q) :: 16 word) = ucast (drop_bit 16 q')"
    by (simp_all add: UnitDependencyInfo_of_data_def)
  show "q = q'"
  proof (rule bit_eqI)
    fix n
    assume "possible_bit TYPE(32 word) n"
    then have n: "n < 32" by simp
    show "bit q n = bit q' n"
    proof (cases "n < 16")
      case True
      have "bit (ucast q :: 16 word) n = bit (ucast q' :: 16 word) n"
        using low by simp
      then show ?thesis
        using True by (simp add: bit_ucast_iff)
    next
      case False
      then have k: "n - 16 < 16" "n - 16 + 16 = n"
        using n by simp_all
      have "bit (ucast (drop_bit 16 q) :: 16 word) (n - 16)
          = bit (ucast (drop_bit 16 q') :: 16 word) (n - 16)"
        using high by simp
      then show ?thesis
        using k by (simp add: bit_ucast_iff bit_drop_bit_eq add.commute)
    qed
  qed
next
  assume "q = q'"
  then show "UnitDependencyInfo_of_data q = UnitDependencyInfo_of_data q'" by simp
qed

text \<open>
  An example on a 64-bit pointer whose upper half is set: the two masks are written into
  the lower half, the upper half stays, and the masks read back.
\<close>

lemma dependency_info_store_example:
  "UnitDependencyInfo_store (0xFFFFFFFF00000000 :: void_ptr)
     \<lparr>origin_mask = UNIT_DEPENDENCY_FILE, destination_mask = UNIT_DEPENDENCY_UDEV\<rparr>
     = 0xFFFFFFFF00080001
   \<and> UnitDependencyInfo_of_data (0xFFFFFFFF00080001 :: void_ptr)
     = \<lparr>origin_mask = UNIT_DEPENDENCY_FILE, destination_mask = UNIT_DEPENDENCY_UDEV\<rparr>"
  by (simp add: UnitDependencyInfo_store_def UnitDependencyInfo_of_data_def
      UNIT_DEPENDENCY_FILE_def UNIT_DEPENDENCY_UDEV_def mask_eq_exp_minus_1)

text \<open>
  Claim C5. The dependency reasons are the eight values file, implicit, default, udev,
  path, mountinfo-implicit, mountinfo-default and proc-swap; they are the bits 0 to 7, one
  each, so the full mask, which is their union, is \<open>(1 << 8) - 1 = 255\<close>. An edge stores
  two 16-bit masks, origin and destination, and the pair is held inside one pointer: on a
  64-bit pointer \<open>p\<close>, whatever it held before, writing the pair and reading it gives the
  pair back, the write changes nothing above bit 31, and what is read depends on the low
  32 bits only; on a 32-bit pointer \<open>q\<close> the pair also reads back, and there the pair is
  the whole pointer: two pointers that read as the same pair are equal.
\<close>

theorem unit_dependency_info_representation:
  "[UNIT_DEPENDENCY_FILE, UNIT_DEPENDENCY_IMPLICIT, UNIT_DEPENDENCY_DEFAULT,
    UNIT_DEPENDENCY_UDEV, UNIT_DEPENDENCY_PATH, UNIT_DEPENDENCY_MOUNTINFO_IMPLICIT,
    UNIT_DEPENDENCY_MOUNTINFO_DEFAULT, UNIT_DEPENDENCY_PROC_SWAP]
     = map (\<lambda>n. push_bit n 1) [0..<8]
   \<and> distinct [UNIT_DEPENDENCY_FILE, UNIT_DEPENDENCY_IMPLICIT, UNIT_DEPENDENCY_DEFAULT,
       UNIT_DEPENDENCY_UDEV, UNIT_DEPENDENCY_PATH, UNIT_DEPENDENCY_MOUNTINFO_IMPLICIT,
       UNIT_DEPENDENCY_MOUNTINFO_DEFAULT, UNIT_DEPENDENCY_PROC_SWAP]
   \<and> UNIT_DEPENDENCY_MASK_FULL =
       UNIT_DEPENDENCY_FILE OR UNIT_DEPENDENCY_IMPLICIT OR UNIT_DEPENDENCY_DEFAULT OR
       UNIT_DEPENDENCY_UDEV OR UNIT_DEPENDENCY_PATH OR UNIT_DEPENDENCY_MOUNTINFO_IMPLICIT OR
       UNIT_DEPENDENCY_MOUNTINFO_DEFAULT OR UNIT_DEPENDENCY_PROC_SWAP
   \<and> UNIT_DEPENDENCY_MASK_FULL = 255
   \<and> UnitDependencyInfo_of_data (UnitDependencyInfo_store (p :: void_ptr) i) = i
   \<and> drop_bit 32 (UnitDependencyInfo_store p i) = drop_bit 32 p
   \<and> UnitDependencyInfo_of_data p = UnitDependencyInfo_of_data (take_bit 32 p)
   \<and> UnitDependencyInfo_of_data (UnitDependencyInfo_store (q :: void_ptr32) i) = i
   \<and> (UnitDependencyInfo_of_data q = UnitDependencyInfo_of_data q' \<longleftrightarrow> q = q')"
proof -
  have full: "UNIT_DEPENDENCY_MASK_FULL = 255"
    by (simp add: UNIT_DEPENDENCY_MASK_FULL_def)
  have p64: "UnitDependencyInfo_of_data (UnitDependencyInfo_store p i) = i"
    by (rule dependency_info_store_roundtrip) simp
  have q32: "UnitDependencyInfo_of_data (UnitDependencyInfo_store q i) = i"
    by (rule dependency_info_store_roundtrip) simp
  show ?thesis
    using dependency_reasons_bits dependency_reasons_distinct dependency_mask_full full
      p64 dependency_info_store_keeps_rest [of p i] dependency_info_of_data_low_bits [of p]
      q32 dependency_info_of_data_inj_32 [of q q']
    by blast
qed

section \<open>Symmetry of dependency edges\<close>

lemma unit_dependency_inverse_involution:
  "unit_dependency_inverse (unit_dependency_inverse k) = k"
  by (cases k) simp_all

lemma mirror_info_fixed:
  assumes "mirror_info i = i"
  shows "origin_mask i = destination_mask i"
proof -
  have "origin_mask (mirror_info i) = destination_mask i"
    by (simp add: mirror_info_def)
  then show ?thesis
    unfolding assms .
qed

lemma mirror_info_or:
  "mirror_info (unit_dependency_info_or om dm e) = unit_dependency_info_or dm om (map_option mirror_info e)"
  by (cases e) (simp_all add: unit_dependency_info_or_def mirror_info_def)

lemma dependency_info_put:
  "dependency_info (unit_put_dependency m u d other om dm) A k B =
     (if A = u \<and> k = d \<and> B = other
      then Some (unit_dependency_info_or om dm (dependency_info m u d other))
      else dependency_info m A k B)"
  by (simp add: dependency_info_def unit_put_dependency_def hashmap_or_merge_def)

lemma dependency_info_ref_set:
  "dependency_info (unit_ref_set m s t) A k B = dependency_info m A k B"
  by (simp add: dependency_info_def unit_ref_set_def)

lemma dependency_info_add:
  "dependency_info (unit_add_dependency m u d other r msk) A k B =
     dependency_info
       (unit_put_dependency (unit_put_dependency m u d other msk 0)
          other (unit_dependency_inverse d) u 0 msk) A k B"
  by (simp add: unit_add_dependency_def Let_def dependency_info_ref_set)

lemma dependency_info_new: "dependency_info manager_new A k B = None"
  by (simp add: dependency_info_def manager_new_def unit_new_def)

lemma edges_mirrored_new: "edges_mirrored manager_new"
  by (simp add: edges_mirrored_def dependency_info_def manager_new_def unit_new_def)

lemma dependency_info_put_put:
  "dependency_info (unit_put_dependency (unit_put_dependency m u d other om1 dm1)
       other' d' u' om2 dm2) A k B =
     (if A = other' \<and> k = d' \<and> B = u'
      then Some (unit_dependency_info_or om2 dm2
        (if other' = u \<and> d' = d \<and> u' = other
         then Some (unit_dependency_info_or om1 dm1 (dependency_info m u d other))
         else dependency_info m other' d' u'))
      else if A = u \<and> k = d \<and> B = other
      then Some (unit_dependency_info_or om1 dm1 (dependency_info m u d other))
      else dependency_info m A k B)"
  by (simp add: dependency_info_put)

lemma put_put_none:
  assumes "\<not> (A = u \<and> k = d \<and> B = other)" "\<not> (A = other' \<and> k = d' \<and> B = u')"
  shows "dependency_info (unit_put_dependency (unit_put_dependency m u d other om1 dm1)
       other' d' u' om2 dm2) A k B = dependency_info m A k B"
  unfolding dependency_info_put_put if_not_P [OF assms(1)] if_not_P [OF assms(2)] ..

lemma put_put_first:
  assumes "\<not> (other' = u \<and> d' = d \<and> u' = other)"
  shows "dependency_info (unit_put_dependency (unit_put_dependency m u d other om1 dm1)
       other' d' u' om2 dm2) u d other = Some (unit_dependency_info_or om1 dm1 (dependency_info m u d other))"
proof -
  have "\<not> (u = other' \<and> d = d' \<and> other = u')"
    using assms by blast
  then show ?thesis
    unfolding dependency_info_put_put by (simp only: if_not_P if_True simp_thms)
qed

lemma put_put_second:
  assumes "\<not> (other' = u \<and> d' = d \<and> u' = other)"
  shows "dependency_info (unit_put_dependency (unit_put_dependency m u d other om1 dm1)
       other' d' u' om2 dm2) other' d' u' = Some (unit_dependency_info_or om2 dm2 (dependency_info m other' d' u'))"
  unfolding dependency_info_put_put if_not_P [OF assms] by (simp only: if_True simp_thms)

lemma put_put_both:
  "dependency_info (unit_put_dependency (unit_put_dependency m u d u om1 dm1)
       u d u om2 dm2) u d u
     = Some (unit_dependency_info_or om2 dm2 (Some (unit_dependency_info_or om1 dm1 (dependency_info m u d u))))"
  unfolding dependency_info_put_put by (simp only: if_True simp_thms)

lemma edges_mirrored_add:
  assumes "edges_mirrored m"
  shows "edges_mirrored (unit_add_dependency m u d other r msk)"
proof -
  define d' where "d' = unit_dependency_inverse d"
  define m' where "m' = unit_put_dependency (unit_put_dependency m u d other msk 0) other d' u 0 msk"
  have inv: "dependency_info m B (unit_dependency_inverse k) A =
        map_option mirror_info (dependency_info m A k B)" for A k B
    using assms by (simp add: edges_mirrored_def)
  have inv_d: "dependency_info m other d' u = map_option mirror_info (dependency_info m u d other)"
    unfolding d'_def by (rule inv)
  have rev1: "unit_dependency_inverse k = d' \<longleftrightarrow> k = d" for k
    unfolding d'_def using unit_dependency_inverse_involution by metis
  have rev2: "unit_dependency_inverse k = d \<longleftrightarrow> k = d'" for k
    unfolding d'_def using unit_dependency_inverse_involution by metis
  have goal: "dependency_info m' B (unit_dependency_inverse k) A =
        map_option mirror_info (dependency_info m' A k B)" for A k B
  proof -
    let ?fwd = "A = u \<and> k = d \<and> B = other"
    let ?bwd = "A = other \<and> k = d' \<and> B = u"
    consider (both) ?fwd ?bwd | (fwd) ?fwd "\<not> ?bwd" | (bwd) ?bwd "\<not> ?fwd" | (none) "\<not> ?fwd" "\<not> ?bwd"
      by blast
    then show ?thesis
    proof cases
      case both
      then have same: "other = u" "d' = d" "A = u" "B = u" "k = d" by blast+
      have kd: "unit_dependency_inverse d = d"
        using rev2 [of d] same by blast
      have fixed: "map_option mirror_info (dependency_info m u d u) = dependency_info m u d u"
        using inv_d unfolding same by (rule sym)
      have val: "dependency_info m' u d u
          = Some (unit_dependency_info_or 0 msk (Some (unit_dependency_info_or msk 0 (dependency_info m u d u))))"
        unfolding m'_def same by (rule put_put_both)
      have "mirror_info (unit_dependency_info_or 0 msk (Some (unit_dependency_info_or msk 0 (dependency_info m u d u))))
          = unit_dependency_info_or 0 msk (Some (unit_dependency_info_or msk 0 (dependency_info m u d u)))"
      proof (cases "dependency_info m u d u")
        case None
        then show ?thesis by (simp add: unit_dependency_info_or_def mirror_info_def)
      next
        case (Some i)
        then have "mirror_info i = i"
          using fixed by simp
        then have "origin_mask i = destination_mask i"
          by (rule mirror_info_fixed)
        then show ?thesis
          using Some by (simp add: unit_dependency_info_or_def mirror_info_def)
      qed
      then have "dependency_info m' u d u = map_option mirror_info (dependency_info m' u d u)"
        unfolding val by simp
      then show ?thesis
        unfolding \<open>A = u\<close> \<open>B = u\<close> \<open>k = d\<close> kd .
    next
      case fwd
      then have at: "A = u" "k = d" "B = other" and ne: "\<not> (other = u \<and> d' = d \<and> u = other)"
        by blast+
      have kd: "unit_dependency_inverse d = d'"
        by (simp add: d'_def)
      have l: "dependency_info m' other d' u = Some (unit_dependency_info_or 0 msk (dependency_info m other d' u))"
        unfolding m'_def using ne by (rule put_put_second)
      have r: "dependency_info m' u d other = Some (unit_dependency_info_or msk 0 (dependency_info m u d other))"
        unfolding m'_def using ne by (rule put_put_first)
      show ?thesis
        unfolding at kd l r inv_d by (simp add: mirror_info_or)
    next
      case bwd
      then have at: "A = other" "k = d'" "B = u" and ne: "\<not> (other = u \<and> d' = d \<and> u = other)"
        by blast+
      have kd: "unit_dependency_inverse d' = d"
        using rev2 [of d'] by blast
      have l: "dependency_info m' other d' u = Some (unit_dependency_info_or 0 msk (dependency_info m other d' u))"
        unfolding m'_def using ne by (rule put_put_second)
      have r: "dependency_info m' u d other = Some (unit_dependency_info_or msk 0 (dependency_info m u d other))"
        unfolding m'_def using ne by (rule put_put_first)
      have "mirror_info (mirror_info i) = i" for i
        by (simp add: mirror_info_def)
      then have "map_option mirror_info (map_option mirror_info e) = e" for e
        by (cases e) simp_all
      then show ?thesis
        unfolding at kd l r inv_d by (simp add: mirror_info_or)
    next
      case none
      have "\<not> (B = u \<and> unit_dependency_inverse k = d \<and> A = other)"
        using none(2) rev2 [of k] by blast
      moreover have "\<not> (B = other \<and> unit_dependency_inverse k = d' \<and> A = u)"
        using none(1) rev1 [of k] by blast
      ultimately have l: "dependency_info m' B (unit_dependency_inverse k) A
          = dependency_info m B (unit_dependency_inverse k) A"
        unfolding m'_def by (rule put_put_none)
      have r: "dependency_info m' A k B = dependency_info m A k B"
        unfolding m'_def using none by (rule put_put_none)
      show ?thesis
        unfolding l r by (rule inv)
    qed
  qed
  have "dependency_info (unit_add_dependency m u d other r msk) A k B = dependency_info m' A k B"
    for A k B
    unfolding m'_def d'_def by (rule dependency_info_add)
  then show ?thesis
    unfolding edges_mirrored_def using goal by simp
qed

lemma edges_mirrored_run:
  "edges_mirrored m \<Longrightarrow> edges_mirrored (run_add_dependencies m cs)"
  unfolding run_add_dependencies_def
proof (induction cs arbitrary: m)
  case Nil
  then show ?case by simp
next
  case (Cons c cs)
  then show ?case by (cases c) (simp add: edges_mirrored_add)
qed

text \<open>
  Claim C1. After any sequence of calls of \<^verbatim>\<open>unit_add_dependency\<close> on a new manager, for
  all units \<open>A\<close> and \<open>B\<close> and every dependency kind \<open>k\<close> with inverse kind \<open>k'\<close>: \<open>B\<close> is a
  key of the hashmap \<^verbatim>\<open>dependencies[k]\<close> of \<open>A\<close> if and only if \<open>A\<close> is a key of the
  hashmap \<^verbatim>\<open>dependencies[k']\<close> of \<open>B\<close>, and the entry on the side of \<open>B\<close> is the mirror
  image of the entry on the side of \<open>A\<close>: the origin mask of the one is the destination
  mask of the other.
\<close>

theorem unit_add_dependency_symmetric:
  "(B \<in> dom (dependencies (units (run_add_dependencies manager_new cs) A) k) \<longleftrightarrow>
      A \<in> dom (dependencies (units (run_add_dependencies manager_new cs) B)
                 (unit_dependency_inverse k)))
   \<and> dependency_info (run_add_dependencies manager_new cs) B (unit_dependency_inverse k) A
       = map_option mirror_info (dependency_info (run_add_dependencies manager_new cs) A k B)"
proof -
  have "edges_mirrored (run_add_dependencies manager_new cs)"
    using edges_mirrored_new by (rule edges_mirrored_run)
  then have mirrored:
    "dependency_info (run_add_dependencies manager_new cs) B (unit_dependency_inverse k) A
       = map_option mirror_info (dependency_info (run_add_dependencies manager_new cs) A k B)"
    by (simp add: edges_mirrored_def)
  then have "dependency_info (run_add_dependencies manager_new cs) B (unit_dependency_inverse k) A
      = None \<longleftrightarrow> dependency_info (run_add_dependencies manager_new cs) A k B = None"
    by simp
  then have "B \<in> dom (dependencies (units (run_add_dependencies manager_new cs) A) k) \<longleftrightarrow>
      A \<in> dom (dependencies (units (run_add_dependencies manager_new cs) B)
                 (unit_dependency_inverse k))"
    unfolding dependency_info_def domIff by simp
  then show ?thesis
    using mirrored by blast
qed

theorem unit_add_dependency_symmetric_witness:
  "dependency_info
     (run_add_dependencies manager_new
        [AddDependency 0 UNIT_WANTS 1 False UNIT_DEPENDENCY_FILE,
         AddDependency 1 UNIT_WANTED_BY 0 True UNIT_DEPENDENCY_UDEV]) 0 UNIT_WANTS 1
     = Some \<lparr>origin_mask = UNIT_DEPENDENCY_FILE, destination_mask = UNIT_DEPENDENCY_UDEV\<rparr>
   \<and> dependency_info
     (run_add_dependencies manager_new
        [AddDependency 0 UNIT_WANTS 1 False UNIT_DEPENDENCY_FILE,
         AddDependency 1 UNIT_WANTED_BY 0 True UNIT_DEPENDENCY_UDEV]) 1 UNIT_WANTED_BY 0
     = Some \<lparr>origin_mask = UNIT_DEPENDENCY_UDEV, destination_mask = UNIT_DEPENDENCY_FILE\<rparr>"
proof -
  define cs where "cs = [AddDependency 0 UNIT_WANTS 1 False UNIT_DEPENDENCY_FILE,
         AddDependency 1 UNIT_WANTED_BY 0 True UNIT_DEPENDENCY_UDEV]"
  have a: "dependency_info (run_add_dependencies manager_new cs) 0 UNIT_WANTS 1
     = Some \<lparr>origin_mask = UNIT_DEPENDENCY_FILE, destination_mask = UNIT_DEPENDENCY_UDEV\<rparr>"
    by (simp add: cs_def run_add_dependencies_def unit_add_dependency_def Let_def
        dependency_info_ref_set dependency_info_put unit_dependency_info_or_def
        dependency_info_new)
  show ?thesis
    using a unit_add_dependency_symmetric [of 1 cs 0 UNIT_WANTS]
    unfolding cs_def by (simp add: mirror_info_def)
qed

section \<open>Coherence of queues and flags\<close>

lemma in_queue_set_in_queue:
  "in_queue q (set_in_queue q' b u) = (if q = q' then b else in_queue q u)"
  by (cases q; cases q'; simp)

lemma queues_coherent_new: "queues_coherent manager_new"
proof -
  have "\<not> in_queue q unit_new" for q
    by (cases q) (simp_all add: unit_new_def)
  then show ?thesis
    by (simp add: queues_coherent_def manager_new_def)
qed

lemma queues_coherent_add:
  assumes "queues_coherent m"
  shows "queues_coherent (unit_add_to_queue q u m)"
proof (cases "in_queue q (units m u)")
  case True
  then show ?thesis
    using assms by (simp add: unit_add_to_queue_def)
next
  case False
  have coh: "distinct (queues m q')" "(u' \<in> set (queues m q')) = in_queue q' (units m u')" for q' u'
    using assms by (simp_all add: queues_coherent_def)
  have "u \<notin> set (queues m q)"
    using False coh(2) by simp
  then show ?thesis
    using False coh
    by (simp add: unit_add_to_queue_def queues_coherent_def
        in_queue_set_in_queue)
qed

lemma queues_coherent_remove:
  assumes "queues_coherent m"
  shows "queues_coherent (unit_remove_from_queue q u m)"
proof (cases "in_queue q (units m u)")
  case False
  then show ?thesis
    using assms by (simp add: unit_remove_from_queue_def)
next
  case True
  have coh: "distinct (queues m q')" "(u' \<in> set (queues m q')) = in_queue q' (units m u')" for q' u'
    using assms by (simp_all add: queues_coherent_def)
  show ?thesis
    using True coh
    by (auto simp add: unit_remove_from_queue_def queues_coherent_def
        in_queue_set_in_queue)
qed

lemma queues_coherent_run:
  "queues_coherent m \<Longrightarrow> queues_coherent (run_queue_ops m ops)"
  unfolding run_queue_ops_def
proof (induction ops arbitrary: m)
  case Nil
  then show ?case by simp
next
  case (Cons op ops)
  then show ?case
    by (cases op) (simp_all add: queues_coherent_add queues_coherent_remove)
qed

lemma add_links_and_flags:
  assumes "queues_coherent m"
  shows "linked_on_queue (unit_add_to_queue q u m) q u \<and> in_queue q (units (unit_add_to_queue q u m) u)"
proof -
  have "in_queue q (units (unit_add_to_queue q u m) u)"
    by (simp add: unit_add_to_queue_def in_queue_set_in_queue)
  moreover have "queues_coherent (unit_add_to_queue q u m)"
    using assms by (rule queues_coherent_add)
  ultimately show ?thesis
    by (simp add: queues_coherent_def linked_on_queue_def)
qed

lemma remove_unlinks_and_clears:
  assumes "queues_coherent m"
  shows "\<not> linked_on_queue (unit_remove_from_queue q u m) q u
    \<and> \<not> in_queue q (units (unit_remove_from_queue q u m) u)"
proof -
  have "\<not> in_queue q (units (unit_remove_from_queue q u m) u)"
    by (simp add: unit_remove_from_queue_def in_queue_set_in_queue)
  moreover have "queues_coherent (unit_remove_from_queue q u m)"
    using assms by (rule queues_coherent_remove)
  ultimately show ?thesis
    by (simp add: queues_coherent_def linked_on_queue_def)
qed

text \<open>
  Claim C6. After any sequence of enqueue and dequeue operations on a new manager, for
  every unit \<open>u\<close> and each of the nine queues \<open>q\<close>: \<open>u\<close> is linked on the list of \<open>q\<close> if
  and only if the flag of \<open>u\<close> for \<open>q\<close> is set; and the operations change the two
  together: after an enqueue the unit is linked and flagged, after a dequeue it is neither.
\<close>

theorem unit_queue_flag_coherence:
  "linked_on_queue (run_queue_ops manager_new ops) q u
     = in_queue q (units (run_queue_ops manager_new ops) u)
   \<and> linked_on_queue (unit_add_to_queue q u (run_queue_ops manager_new ops)) q u
   \<and> in_queue q (units (unit_add_to_queue q u (run_queue_ops manager_new ops)) u)
   \<and> \<not> linked_on_queue (unit_remove_from_queue q u (run_queue_ops manager_new ops)) q u
   \<and> \<not> in_queue q (units (unit_remove_from_queue q u (run_queue_ops manager_new ops)) u)"
proof -
  have coh: "queues_coherent (run_queue_ops manager_new ops)"
    using queues_coherent_new by (rule queues_coherent_run)
  then have "linked_on_queue (run_queue_ops manager_new ops) q u
     = in_queue q (units (run_queue_ops manager_new ops) u)"
    by (simp add: queues_coherent_def linked_on_queue_def)
  then show ?thesis
    using add_links_and_flags [OF coh, of q u] remove_unlinks_and_clears [OF coh, of q u]
    by blast
qed

theorem unit_queue_flag_coherence_witness:
  "linked_on_queue (run_queue_ops manager_new [Enqueue GC_QUEUE 3, Enqueue GC_QUEUE 3]) GC_QUEUE 3
   \<and> in_queue GC_QUEUE (units (run_queue_ops manager_new [Enqueue GC_QUEUE 3, Enqueue GC_QUEUE 3]) 3)
   \<and> queues (run_queue_ops manager_new [Enqueue GC_QUEUE 3, Enqueue GC_QUEUE 3]) GC_QUEUE = [3]
   \<and> \<not> linked_on_queue (run_queue_ops manager_new [Enqueue GC_QUEUE 3, Dequeue GC_QUEUE 3]) GC_QUEUE 3
   \<and> \<not> in_queue GC_QUEUE (units (run_queue_ops manager_new [Enqueue GC_QUEUE 3, Dequeue GC_QUEUE 3]) 3)"
  using unit_queue_flag_coherence [of "[Enqueue GC_QUEUE 3, Enqueue GC_QUEUE 3]" GC_QUEUE 3]
    unit_queue_flag_coherence [of "[Enqueue GC_QUEUE 3, Dequeue GC_QUEUE 3]" GC_QUEUE 3]
  by (simp add: run_queue_ops_def unit_add_to_queue_def unit_remove_from_queue_def
      linked_on_queue_def manager_new_def unit_new_def)

section \<open>Eligibility for garbage collection\<close>

text \<open>
  Claim C4. \<^verbatim>\<open>unit_may_gc(u)\<close> is true exactly when \<open>u\<close> has no job, is not active, is not
  referenced by any \<^verbatim>\<open>UnitRef\<close>, is not perpetual, has no watched PIDs, the callback
  \<^verbatim>\<open>may_gc\<close> of its type, when there is one, agrees, and its state is one that its
  \<^verbatim>\<open>collect_mode\<close> collects from: the inactive state only for \<^verbatim>\<open>inactive\<close>, the inactive
  or the failed state for \<^verbatim>\<open>inactive_or_failed\<close>.
\<close>

theorem unit_may_gc_iff:
  "unit_may_gc vt u \<longleftrightarrow>
     job u = None
     \<and> \<not> UNIT_IS_ACTIVE_OR_ACTIVATING (active_state vt u)
     \<and> refs_by_target u = []
     \<and> \<not> perpetual u
     \<and> pids u = {}
     \<and> (\<forall>f. may_gc vt = Some f \<longrightarrow> f u)
     \<and> (collect_mode u = COLLECT_INACTIVE \<longrightarrow> active_state vt u = UNIT_INACTIVE)
     \<and> (collect_mode u = COLLECT_INACTIVE_OR_FAILED \<longrightarrow>
          active_state vt u = UNIT_INACTIVE \<or> active_state vt u = UNIT_FAILED)"
  by (cases "collect_mode u"; cases "may_gc vt")
    (auto simp add: unit_may_gc_def Let_def IN_SET_def)

theorem unit_may_gc_iff_witness:
  "unit_may_gc failed_vtable (unit_new\<lparr>collect_mode := COLLECT_INACTIVE_OR_FAILED\<rparr>)
   \<and> \<not> unit_may_gc failed_vtable (unit_new\<lparr>collect_mode := COLLECT_INACTIVE\<rparr>)"
  using unit_may_gc_iff [of failed_vtable "unit_new\<lparr>collect_mode := COLLECT_INACTIVE_OR_FAILED\<rparr>"]
    unit_may_gc_iff [of failed_vtable "unit_new\<lparr>collect_mode := COLLECT_INACTIVE\<rparr>"]
  by (simp add: failed_vtable_def unit_new_def UNIT_IS_ACTIVE_OR_ACTIVATING_def IN_SET_def)

section \<open>Termination of merge chains\<close>






















end
